theory Spec2Isabelle
  imports Main
begin

section \<open>Python values, errors and list indexing\<close>

text \<open>
  The exceptions that the modelled code can raise.  \<open>AttributeError\<close> carries the name of
  the attribute that the message does not have, \<open>ValueError\<close> its text.
\<close>

datatype error = AttributeError string | IndexError | ValueError string

text \<open>Reading an attribute that a \<open>mido\<close> message may or may not carry.\<close>

definition getattr :: "string \<Rightarrow> 'a option \<Rightarrow> error + 'a" where
  "getattr name field = (case field of None \<Rightarrow> Inl (AttributeError name) | Some v \<Rightarrow> Inr v)"

text \<open>Python's \<open>xs[i]\<close>: an index from \<open>-len(xs)\<close> up to \<open>-1\<close> counts from the end.\<close>

definition getitem :: "'a list \<Rightarrow> int \<Rightarrow> error + 'a" where
  "getitem xs i =
     (if 0 \<le> i \<and> i < int (length xs) then Inr (xs ! nat i)
      else if i < 0 \<and> - int (length xs) \<le> i then Inr (xs ! nat (int (length xs) + i))
      else Inl IndexError)"

section \<open>Global variables\<close>

definition duration_max :: int where
  "duration_max = -1"

definition note_stop :: int where
  "note_stop = -1"

text \<open>
  \<open>midi_frequency\<close> is a table of 128 floating-point frequencies; the handlers depend on
  it only through the range of indices it accepts, so the model keeps its length.
\<close>

definition midi_frequency_length :: nat where
  "midi_frequency_length = 128"

section \<open>MIDI messages\<close>

text \<open>
  A \<open>mido.Message\<close> has a \<open>type\<close> and the attributes of that type: a \<open>note_on\<close> or
  \<open>note_off\<close> message has \<open>channel\<close>, \<open>note\<close> and \<open>velocity\<close>; a \<open>stop\<close> message has
  none of them.  An attribute that is absent is \<open>None\<close> here and reading it raises
  \<open>AttributeError\<close>.
\<close>

record msg =
  type :: string
  channel :: "int option"
  "note" :: "int option"
  velocity :: "int option"

definition note_on :: "int \<Rightarrow> int \<Rightarrow> int \<Rightarrow> msg" where
  "note_on c n v = \<lparr>type = ''note_on'', channel = Some c, note = Some n, velocity = Some v\<rparr>"

definition note_off :: "int \<Rightarrow> int \<Rightarrow> int \<Rightarrow> msg" where
  "note_off c n v = \<lparr>type = ''note_off'', channel = Some c, note = Some n, velocity = Some v\<rparr>"

text \<open>\<open>mido.Message('stop')\<close>.\<close>

definition stop :: msg where
  "stop = \<lparr>type = ''stop'', channel = None, note = None, velocity = None\<rparr>"

section \<open>The channel driver\<close>

text \<open>
  \<open>Play_note d h n\<close> records one call \<open>steam_controller_play_note(d, h, n)\<close> that reached the
  USB transfer: \<open>d\<close> is the controller, \<open>h\<close> the haptic pad and \<open>n\<close> the note it was called
  with (\<open>note_stop\<close> to silence the pad).  The bytes of the packet are computed in floating
  point and are not modelled.  A \<open>USBError\<close> of the transfer is caught and printed by the
  function, so the only exception that leaves it is the \<open>IndexError\<close> of
  \<open>midi_frequency[note]\<close>; \<open>note_stop\<close> is replaced by note 0 before the lookup.
\<close>

datatype 'dev transfer = Play_note 'dev int int

definition steam_controller_play_note :: "'dev \<Rightarrow> int \<Rightarrow> int \<Rightarrow> error + 'dev transfer" where
  "steam_controller_play_note steam_controller haptic n =
     (let idx = (if n = note_stop then 0 else n)
      in if - int midi_frequency_length \<le> idx \<and> idx < int midi_frequency_length
         then Inr (Play_note steam_controller haptic n)
         else Inl IndexError)"

text \<open>
  The expression \<open>steam_controller_play_note(self.controllers[controller], haptic, note)\<close>,
  which every handler uses: the list is indexed first.
\<close>

definition play_on :: "'dev list \<Rightarrow> int \<Rightarrow> int \<Rightarrow> int \<Rightarrow> error + 'dev transfer" where
  "play_on cs controller haptic n =
     (case getitem cs controller of
        Inl e \<Rightarrow> Inl e
      | Inr d \<Rightarrow> steam_controller_play_note d haptic n)"

section \<open>The port\<close>

text \<open>
  The fields of \<open>steam_controller_mido_port\<close>.  A slot of \<open>queue\<close> is \<open>None\<close> or the
  dictionary \<open>{'channel': c, 'note': n}\<close>, kept as the pair \<open>(c, n)\<close>.  The constructor
  \<open>__init__\<close> is \<open>port_init\<close> and the method \<open>_send\<close> is \<open>send\<close> below.
\<close>

record 'dev port =
  controllers :: "'dev list"
  channels :: int
  previous_notes :: "int list"
  debug :: bool
  logic :: string
  queue :: "(int \<times> int) option list"

text \<open>The \<open>controllers\<close> argument of the constructor: a list or a single controller.\<close>

datatype 'dev controllers_arg = A_list "'dev list" | A_device 'dev

definition port_init :: "'dev controllers_arg \<Rightarrow> bool \<Rightarrow> string \<Rightarrow> 'dev port" where
  "port_init arg dbg lg =
     (let cs = (case arg of A_list l \<Rightarrow> l | A_device d \<Rightarrow> [d]);
          chs = int (length cs) * 2 - 1
      in \<lparr>controllers = cs,
          channels = chs,
          previous_notes = replicate (nat (chs + 1)) 0,
          debug = dbg,
          logic = lg,
          queue = replicate (nat (chs + 1)) None\<rparr>)"

text \<open>
  A handler returns the exception it raised, if any, the port as it left it and the
  transfers it issued, in order.  \<open>display_played_notes\<close> only prints, raises nothing for
  integer arguments and is left out.  \<open>emit\<close> is the result of a handler that ends with one
  call of the driver.
\<close>

type_synonym 'dev result = "error option \<times> 'dev port \<times> 'dev transfer list"

definition emit :: "'dev port \<Rightarrow> error + 'dev transfer \<Rightarrow> 'dev result" where
  "emit self r = (case r of Inl e \<Rightarrow> (Some e, self, []) | Inr t \<Rightarrow> (None, self, [t]))"

subsection \<open>single_voice\<close>

definition single_voice :: "'dev port \<Rightarrow> msg \<Rightarrow> 'dev result" where
  "single_voice self m =
     (case getattr ''channel'' (channel m) of
        Inl e \<Rightarrow> (Some e, self, [])
      | Inr c \<Rightarrow>
          if c \<le> channels self then
            (let controller = c div 2; haptic = c mod 2
             in if type m = ''note_on'' then
                  (case getattr ''velocity'' (velocity m) of
                     Inl e \<Rightarrow> (Some e, self, [])
                   | Inr v \<Rightarrow>
                       if v = 0 then
                         emit self (play_on (controllers self) controller haptic note_stop)
                       else
                         (case getattr ''note'' (note m) of
                            Inl e \<Rightarrow> (Some e, self, [])
                          | Inr n \<Rightarrow> emit self (play_on (controllers self) controller haptic n)))
                else if type m = ''note_off'' then
                  emit self (play_on (controllers self) controller haptic note_stop)
                else (None, self, []))
          else (None, self, []))"

subsection \<open>polyphony\<close>

text \<open>
  The loop \<open>for i in range(len(self.queue))\<close> of the two releasing branches (a \<open>note_on\<close>
  of velocity 0 and a \<open>note_off\<close> run the same code), over the indices still to visit;
  \<open>break\<close> is the branch without a recursive call.
\<close>

fun release :: "'dev port \<Rightarrow> msg \<Rightarrow> nat list \<Rightarrow> 'dev result" where
  "release self m [] = (None, self, [])"
| "release self m (i # rest) =
     (case queue self ! i of
        None \<Rightarrow> release self m rest
      | Some (qc, qn) \<Rightarrow>
          (case getattr ''channel'' (channel m) of
             Inl e \<Rightarrow> (Some e, self, [])
           | Inr c \<Rightarrow>
               if qc \<noteq> c then release self m rest
               else
                 (case getattr ''note'' (note m) of
                    Inl e \<Rightarrow> (Some e, self, [])
                  | Inr n \<Rightarrow>
                      if qn \<noteq> n then release self m rest
                      else
                        (case play_on (controllers self) (int i div 2) (int i mod 2) note_stop of
                           Inl e \<Rightarrow> (Some e, self, [])
                         | Inr t \<Rightarrow> (None, self\<lparr>queue := (queue self)[i := None]\<rparr>, [t])))))"

text \<open>The loop of the branch for a \<open>note_on\<close> of non-zero velocity: the slot is bound
  before the note is played.\<close>

fun allocate :: "'dev port \<Rightarrow> msg \<Rightarrow> nat list \<Rightarrow> 'dev result" where
  "allocate self m [] = (None, self, [])"
| "allocate self m (i # rest) =
     (if queue self ! i = None then
        (case getattr ''channel'' (channel m) of
           Inl e \<Rightarrow> (Some e, self, [])
         | Inr c \<Rightarrow>
             (case getattr ''note'' (note m) of
                Inl e \<Rightarrow> (Some e, self, [])
              | Inr n \<Rightarrow>
                  (let self' = self\<lparr>queue := (queue self)[i := Some (c, n)]\<rparr>
                   in emit self' (play_on (controllers self') (int i div 2) (int i mod 2) n))))
      else allocate self m rest)"

definition polyphony :: "'dev port \<Rightarrow> msg \<Rightarrow> 'dev result" where
  "polyphony self m =
     (if type m = ''note_on'' then
        (case getattr ''velocity'' (velocity m) of
           Inl e \<Rightarrow> (Some e, self, [])
         | Inr v \<Rightarrow>
             if v = 0 then release self m [0..<length (queue self)]
             else allocate self m [0..<length (queue self)])
      else if type m = ''note_off'' then release self m [0..<length (queue self)]
      else (None, self, []))"

subsection \<open>_send\<close>

text \<open>The loop of \<open>_send\<close> for a \<open>stop\<close> message, over the indices still to visit.\<close>

fun stop_all :: "'dev list \<Rightarrow> nat list \<Rightarrow> error option \<times> 'dev transfer list" where
  "stop_all cs [] = (None, [])"
| "stop_all cs (i # rest) =
     (case play_on cs (int i div 2) (int i mod 2) note_stop of
        Inl e \<Rightarrow> (Some e, [])
      | Inr t \<Rightarrow> (case stop_all cs rest of (e, ts) \<Rightarrow> (e, t # ts)))"

definition send :: "'dev port \<Rightarrow> msg \<Rightarrow> 'dev result" where
  "send self m =
     (case (if type m = ''stop''
            then stop_all (controllers self) [0..<nat (channels self + 1)]
            else (None, [])) of
        (Some e, ts) \<Rightarrow> (Some e, self, ts)
      | (None, ts) \<Rightarrow>
          (case (if logic self = ''single_voice'' then single_voice self m
                 else if logic self = ''polyphony'' then polyphony self m
                 else (Some (ValueError (''Invalid logic type: '' @ logic self)), self, [])) of
             (e, self', ts') \<Rightarrow> (e, self', ts @ ts')))"

section \<open>Playing a file\<close>

text \<open>
  \<open>for msg in ...: port.send(msg)\<close>: the messages are sent in order and the first exception
  ends the loop.
\<close>

fun send_all :: "'dev port \<Rightarrow> msg list \<Rightarrow> 'dev result" where
  "send_all self [] = (None, self, [])"
| "send_all self (m # ms) =
     (case send self m of
        (Some e, self', ts) \<Rightarrow> (Some e, self', ts)
      | (None, self', ts) \<Rightarrow>
          (case send_all self' ms of (e, self'', ts') \<Rightarrow> (e, self'', ts @ ts')))"

text \<open>
  \<open>play_song\<close>: \<open>song\<close> is the sequence of messages that \<open>mid.play()\<close> yields.  The last
  argument says whether a \<open>KeyboardInterrupt\<close> arrives while the loop runs: \<open>None\<close> when
  the file is played to its end, \<open>Some k\<close> when the interrupt arrives after \<open>k\<close> messages have
  been sent, between two calls of \<open>port.send\<close>.  The \<open>try\<close> encloses the whole loop and
  \<open>mid.play()\<close> still waits after it has yielded the last message, so \<open>k\<close> may be the
  length of \<open>song\<close>; a larger \<open>k\<close> means the same as that length (\<open>take k song\<close> is then the
  whole of \<open>song\<close>).  Any other exception leaves \<open>play_song\<close> uncaught, as does an exception
  raised by the \<open>port.send\<close> of the handler.
\<close>

definition play_song :: "'dev controllers_arg \<Rightarrow> msg list \<Rightarrow> string \<Rightarrow> nat option \<Rightarrow> 'dev result" where
  "play_song controllers_arg song lg interrupt =
     (let port = port_init controllers_arg False lg
      in case interrupt of
           None \<Rightarrow> send_all port song
         | Some k \<Rightarrow>
             (case send_all port (take k song) of
                (Some e, port', ts) \<Rightarrow> (Some e, port', ts)
              | (None, port', ts) \<Rightarrow>
                  (case send port' stop of (e, port'', ts') \<Rightarrow> (e, port'', ts @ ts'))))"

section \<open>Well-formed ports\<close>

text \<open>What the constructor establishes and no handler changes.\<close>

definition port_ok :: "'dev port \<Rightarrow> bool" where
  "port_ok self \<longleftrightarrow>
     channels self = 2 * int (length (controllers self)) - 1 \<and>
     length (queue self) = 2 * length (controllers self)"

text \<open>The transfer that commands note \<open>n\<close> on physical channel \<open>i\<close>.\<close>

definition command :: "'dev list \<Rightarrow> nat \<Rightarrow> int \<Rightarrow> 'dev transfer" where
  "command cs i n = Play_note (cs ! (i div 2)) (int i mod 2) n"

text \<open>The note that a transfer was called with.\<close>

fun played :: "'dev transfer \<Rightarrow> int" where
  "played (Play_note d h n) = n"

text \<open>
  The channels that a \<open>mido.Message\<close> can carry: \<open>mido\<close> refuses to build a message whose
  channel is not one of 0 .. 15.
\<close>

definition mido_channel :: "int \<Rightarrow> bool" where
  "mido_channel c \<longleftrightarrow> 0 \<le> c \<and> c \<le> 15"

section \<open>Observations on the slots\<close>

text \<open>The occupied slots of a queue, in order.\<close>

definition bound :: "(int \<times> int) option list \<Rightarrow> (int \<times> int) option list" where
  "bound q = filter (\<lambda>s. s \<noteq> None) q"

text \<open>
  \<open>keeps self self'\<close>: the port \<open>self'\<close> differs from \<open>self\<close> at most in the contents of the
  slots; the number of slots and every other field are those of \<open>self\<close>.
\<close>

definition keeps :: "'dev port \<Rightarrow> 'dev port \<Rightarrow> bool" where
  "keeps self self' \<longleftrightarrow>
     self' = self\<lparr>queue := queue self'\<rparr> \<and> length (queue self') = length (queue self)"

section \<open>Evaluation and basic facts\<close>

lemmas eval_defs = port_init_def send_def polyphony_def single_voice_def note_on_def note_off_def
  stop_def getattr_def play_on_def getitem_def steam_controller_play_note_def
  midi_frequency_length_def note_stop_def command_def emit_def play_song_def

lemma play_on_stop: "i div 2 < length cs \<Longrightarrow> play_on cs (int i div 2) (int i mod 2) note_stop = Inr (command cs i note_stop)"
  by (simp add: play_on_def getitem_def steam_controller_play_note_def command_def midi_frequency_length_def nat_div_distrib zdiv_int[symmetric])

lemma play_on_note: "i div 2 < length cs \<Longrightarrow> 0 \<le> n \<Longrightarrow> n < 128 \<Longrightarrow> play_on cs (int i div 2) (int i mod 2) n = Inr (command cs i n)"
  by (simp add: play_on_def getitem_def steam_controller_play_note_def command_def midi_frequency_length_def note_stop_def nat_div_distrib zdiv_int[symmetric])

lemma stop_all_ok: "\<forall>i\<in>set idxs. i div 2 < length cs \<Longrightarrow> stop_all cs idxs = (None, map (\<lambda>i. command cs i note_stop) idxs)"
  by (induction idxs) (simp_all add: play_on_stop)


section \<open>The two scans of the slots\<close>

text \<open>A scan passes over every index that does not qualify and stops at the first that does.\<close>

lemma release_skip:
  assumes "channel m = Some c" "note m = Some n"
    and "\<forall>j\<in>set pre. queue self ! j \<noteq> Some (c, n)"
  shows "release self m (pre @ rest) = release self m rest"
  using assms(3)
proof (induction pre)
  case Nil
  then show ?case by simp
next
  case (Cons j pre)
  then have ih: "release self m (pre @ rest) = release self m rest"
    and nj: "queue self ! j \<noteq> Some (c, n)" by simp_all
  show ?case
  proof (cases "queue self ! j")
    case None
    then show ?thesis using ih by simp
  next
    case (Some b)
    obtain qc qn where b: "b = (qc, qn)" by (cases b)
    with Some nj have "qc \<noteq> c \<or> qn \<noteq> n" by auto
    then show ?thesis using Some b ih assms(1,2) by (auto simp: getattr_def)
  qed
qed

lemma release_hit:
  assumes "channel m = Some c" "note m = Some n"
    and "queue self ! i = Some (c, n)" "i div 2 < length (controllers self)"
  shows "release self m (i # rest) =
         (None, self\<lparr>queue := (queue self)[i := None]\<rparr>, [command (controllers self) i note_stop])"
  using assms by (simp add: getattr_def play_on_stop)

lemma allocate_skip:
  assumes "\<forall>j\<in>set pre. queue self ! j \<noteq> None"
  shows "allocate self m (pre @ rest) = allocate self m rest"
  using assms by (induction pre) auto

lemma allocate_hit:
  assumes "channel m = Some c" "note m = Some n"
    and "queue self ! i = None" "i div 2 < length (controllers self)" "0 \<le> n" "n < 128"
  shows "allocate self m (i # rest) =
         (None, self\<lparr>queue := (queue self)[i := Some (c, n)]\<rparr>, [command (controllers self) i n])"
  using assms by (simp add: getattr_def play_on_note emit_def)

lemma upt_split: "i < k \<Longrightarrow> [0..<k] = [0..<i] @ i # [Suc i..<k]"
  by (metis less_imp_le_nat upt_add_eq_append upt_conv_Cons le_add_diff_inverse plus_nat.add_0 zero_le)


section \<open>Messages and dispatch\<close>

lemma note_on_simps:
  "type (note_on c n v) = ''note_on''" "channel (note_on c n v) = Some c"
  "note (note_on c n v) = Some n" "velocity (note_on c n v) = Some v"
  by (simp_all add: note_on_def)

lemma note_off_simps:
  "type (note_off c n v) = ''note_off''" "channel (note_off c n v) = Some c"
  "note (note_off c n v) = Some n" "velocity (note_off c n v) = Some v"
  by (simp_all add: note_off_def)

lemma stop_simps:
  "type stop = ''stop''" "channel stop = None" "note stop = None" "velocity stop = None"
  by (simp_all add: stop_def)

lemma send_polyphony_note_off:
  "logic self = ''polyphony'' \<Longrightarrow>
   send self (note_off c n v) = release self (note_off c n v) [0..<length (queue self)]"
  by (simp add: send_def polyphony_def note_off_simps split: prod.splits)

lemma send_polyphony_note_on_zero:
  "logic self = ''polyphony'' \<Longrightarrow>
   send self (note_on c n 0) = release self (note_on c n 0) [0..<length (queue self)]"
  by (simp add: send_def polyphony_def note_on_simps getattr_def split: prod.splits)

lemma send_polyphony_note_on:
  "logic self = ''polyphony'' \<Longrightarrow> v \<noteq> 0 \<Longrightarrow>
   send self (note_on c n v) = allocate self (note_on c n v) [0..<length (queue self)]"
  by (simp add: send_def polyphony_def note_on_simps getattr_def split: prod.splits)

lemma release_first:
  assumes m: "channel m = Some c" "note m = Some n"
    and i: "i < length (queue self)" and hit: "queue self ! i = Some (c, n)"
    and first: "\<forall>j<i. queue self ! j \<noteq> Some (c, n)"
    and len: "length (queue self) \<le> 2 * length (controllers self)"
  shows "release self m [0..<length (queue self)] =
         (None, self\<lparr>queue := (queue self)[i := None]\<rparr>, [command (controllers self) i note_stop])"
proof -
  let ?rest = "[Suc i..<length (queue self)]"
  have ctl: "i div 2 < length (controllers self)" using i len by auto
  have before: "\<forall>j\<in>set [0..<i]. queue self ! j \<noteq> Some (c, n)" using first by simp
  have "release self m [0..<length (queue self)] = release self m ([0..<i] @ i # ?rest)"
    using upt_split[OF i] by simp
  also have "\<dots> = release self m (i # ?rest)"
    by (rule release_skip[OF m before])
  also have "\<dots> = (None, self\<lparr>queue := (queue self)[i := None]\<rparr>, [command (controllers self) i note_stop])"
    by (rule release_hit[OF m hit ctl])
  finally show ?thesis .
qed

lemma release_none:
  assumes "channel m = Some c" "note m = Some n" "Some (c, n) \<notin> set (queue self)"
  shows "release self m [0..<length (queue self)] = (None, self, [])"
proof -
  have "\<forall>j\<in>set [0..<length (queue self)]. queue self ! j \<noteq> Some (c, n)"
    using assms(3) by (metis atLeastLessThan_iff nth_mem set_upt)
  then show ?thesis
    using release_skip[OF assms(1,2), of "[0..<length (queue self)]" self "[]"] by simp
qed

lemma allocate_first:
  assumes m: "channel m = Some c" "note m = Some n"
    and i: "i < length (queue self)" and free: "queue self ! i = None"
    and first: "\<forall>j<i. queue self ! j \<noteq> None"
    and len: "length (queue self) \<le> 2 * length (controllers self)" and n: "0 \<le> n" "n < 128"
  shows "allocate self m [0..<length (queue self)] =
         (None, self\<lparr>queue := (queue self)[i := Some (c, n)]\<rparr>, [command (controllers self) i n])"
proof -
  let ?rest = "[Suc i..<length (queue self)]"
  have ctl: "i div 2 < length (controllers self)" using i len by auto
  have before: "\<forall>j\<in>set [0..<i]. queue self ! j \<noteq> None" using first by simp
  have "allocate self m [0..<length (queue self)] = allocate self m ([0..<i] @ i # ?rest)"
    using upt_split[OF i] by simp
  also have "\<dots> = allocate self m (i # ?rest)"
    by (rule allocate_skip[OF before])
  also have "\<dots> = (None, self\<lparr>queue := (queue self)[i := Some (c, n)]\<rparr>, [command (controllers self) i n])"
    by (rule allocate_hit[OF m free ctl n])
  finally show ?thesis .
qed

lemma allocate_full:
  assumes "None \<notin> set (queue self)"
  shows "allocate self m [0..<length (queue self)] = (None, self, [])"
proof -
  have "\<forall>j\<in>set [0..<length (queue self)]. queue self ! j \<noteq> None"
    using assms by (metis atLeastLessThan_iff nth_mem set_upt)
  then show ?thesis
    using allocate_skip[of "[0..<length (queue self)]" self m "[]"] by simp
qed

lemma play_on_channel:
  assumes "0 \<le> c" "c < 2 * int (length cs)"
  shows "play_on cs (c div 2) (c mod 2) note_stop = Inr (command cs (nat c) note_stop)"
proof -
  have "nat c div 2 < length cs" using assms by auto
  then show ?thesis using play_on_stop[of "nat c" cs] assms(1) by simp
qed

lemma send_single_voice:
  "logic self = ''single_voice'' \<Longrightarrow> type m \<noteq> ''stop'' \<Longrightarrow> send self m = single_voice self m"
  by (simp add: send_def split: prod.splits)


section \<open>What no handler changes\<close>

lemma keeps_refl: "keeps self self"
  by (simp add: keeps_def)

lemma keeps_update: "length q = length (queue self) \<Longrightarrow> keeps self (self\<lparr>queue := q\<rparr>)"
  by (simp add: keeps_def)

lemma keeps_trans: "keeps a b \<Longrightarrow> keeps b c \<Longrightarrow> keeps a c"
  unfolding keeps_def by (metis port.surjective port.update_convs(6))

lemma keeps_port_ok: "keeps self self' \<Longrightarrow> port_ok self \<Longrightarrow> port_ok self'"
  unfolding keeps_def port_ok_def by (metis port.select_convs(1,2) port.surjective port.update_convs(6))

lemma release_keeps: "keeps self (fst (snd (release self m idxs)))"
  by (induction idxs) (auto simp: keeps_refl keeps_update split: option.splits sum.splits)

lemma allocate_keeps: "keeps self (fst (snd (allocate self m idxs)))"
  by (induction idxs) (auto simp: keeps_refl keeps_update emit_def Let_def split: option.splits sum.splits)

lemma single_voice_port: "fst (snd (single_voice self m)) = self"
  by (simp add: single_voice_def emit_def Let_def split: option.splits sum.splits)

lemma polyphony_keeps: "keeps self (fst (snd (polyphony self m)))"
  by (simp add: polyphony_def keeps_refl release_keeps allocate_keeps split: sum.splits)

lemma send_keeps: "keeps self (fst (snd (send self m)))"
  using polyphony_keeps[of self m] single_voice_port[of self m]
  by (auto simp: send_def keeps_refl split: prod.splits option.splits)

lemma send_all_keeps: "keeps self (fst (snd (send_all self ms)))"
proof (induction ms arbitrary: self)
  case Nil
  then show ?case by (simp add: keeps_refl)
next
  case (Cons m ms)
  obtain e self' ts where s: "send self m = (e, self', ts)" by (cases "send self m")
  then have k: "keeps self self'" using send_keeps[of self m] by simp
  show ?case
  proof (cases e)
    case None
    then show ?thesis using s k Cons.IH[of self'] keeps_trans
      by (auto split: prod.splits)
  next
    case (Some a)
    then show ?thesis using s k by simp
  qed
qed


section \<open>The stop message\<close>

lemma stop_all_port:
  assumes "port_ok self"
  shows "stop_all (controllers self) [0..<nat (channels self + 1)] =
         (None, map (\<lambda>i. command (controllers self) i note_stop) [0..<2 * length (controllers self)])"
proof -
  have "nat (channels self + 1) = 2 * length (controllers self)"
    using assms by (simp add: port_ok_def)
  moreover have "\<forall>i\<in>set [0..<2 * length (controllers self)]. i div 2 < length (controllers self)"
    by auto
  ultimately show ?thesis by (simp add: stop_all_ok)
qed

lemma single_voice_stop: "single_voice self stop = (Some (AttributeError ''channel''), self, [])"
  by (simp add: single_voice_def stop_simps getattr_def)

lemma polyphony_stop: "polyphony self stop = (None, self, [])"
  by (simp add: polyphony_def stop_simps)

lemma send_stop:
  assumes "port_ok self"
  shows "send self stop =
     (if logic self = ''single_voice'' then Some (AttributeError ''channel'')
      else if logic self = ''polyphony'' then None
      else Some (ValueError (''Invalid logic type: '' @ logic self)),
      self, map (\<lambda>i. command (controllers self) i note_stop) [0..<2 * length (controllers self)])"
  using stop_all_port[OF assms]
  by (simp add: send_def stop_simps single_voice_stop polyphony_stop)

lemma port_init_ok: "port_ok (port_init arg dbg lg)"
  by (cases arg) (simp_all add: port_init_def port_ok_def)

lemma port_init_fields:
  "logic (port_init arg dbg lg) = lg"
  "controllers (port_init (A_list cs) dbg lg) = cs"
  "queue (port_init (A_list cs) dbg lg) = replicate (2 * length cs) None"
  "previous_notes (port_init (A_list cs) dbg lg) = replicate (2 * length cs) 0"
  by (simp_all add: port_init_def Let_def)


section \<open>The policy-name error\<close>

lemma send_invalid_logic:
  assumes "port_ok self" and "logic self \<noteq> ''single_voice''" and "logic self \<noteq> ''polyphony''"
  shows "fst (send self m) = Some (ValueError (''Invalid logic type: '' @ logic self)) \<and>
         fst (snd (send self m)) = self"
  using assms stop_all_port[OF assms(1)] by (simp add: send_def split: prod.splits)

lemma single_voice_no_ValueError: "fst (single_voice self m) \<noteq> Some (ValueError s)"
  by (auto simp: single_voice_def emit_def Let_def getattr_def play_on_def steam_controller_play_note_def
      getitem_def split: option.splits sum.splits if_splits)

lemma play_on_no_ValueError: "play_on cs a b n \<noteq> Inl (ValueError s)"
  by (simp add: play_on_def steam_controller_play_note_def getitem_def)

lemma release_no_ValueError: "fst (release self m idxs) \<noteq> Some (ValueError s)"
  by (induction idxs)
     (auto simp: getattr_def play_on_no_ValueError split: option.splits sum.splits)

lemma allocate_no_ValueError: "fst (allocate self m idxs) \<noteq> Some (ValueError s)"
  by (induction idxs)
     (auto simp: getattr_def emit_def Let_def play_on_no_ValueError split: option.splits sum.splits)

lemma polyphony_no_ValueError: "fst (polyphony self m) \<noteq> Some (ValueError s)"
  by (auto simp: polyphony_def getattr_def release_no_ValueError allocate_no_ValueError
      split: option.splits sum.splits)

lemma stop_all_no_ValueError: "fst (stop_all cs idxs) \<noteq> Some (ValueError s)"
  by (induction idxs) (auto simp: play_on_no_ValueError split: sum.splits prod.splits)

lemma send_no_ValueError:
  assumes "logic self = ''single_voice'' \<or> logic self = ''polyphony''"
  shows "fst (send self m) \<noteq> Some (ValueError s)"
proof -
  obtain e ts where st: "stop_all (controllers self) [0..<nat (channels self + 1)] = (e, ts)"
    by (cases "stop_all (controllers self) [0..<nat (channels self + 1)]")
  then have e: "e \<noteq> Some (ValueError s)"
    using stop_all_no_ValueError[of "controllers self" "[0..<nat (channels self + 1)]" s] by simp
  show ?thesis
    using assms e st single_voice_no_ValueError[of self m s] polyphony_no_ValueError[of self m s]
    by (auto simp: send_def split: prod.splits option.splits)
qed

lemma keeps_logic: "keeps self self' \<Longrightarrow> logic self' = logic self"
  unfolding keeps_def by (metis port.select_convs(5) port.surjective port.update_convs(6))


lemma send_all_no_ValueError:
  assumes "logic self = ''single_voice'' \<or> logic self = ''polyphony''"
  shows "fst (send_all self ms) \<noteq> Some (ValueError s)"
  using assms
proof (induction ms arbitrary: self)
  case Nil
  then show ?case by simp
next
  case (Cons m ms)
  obtain e self' ts where st: "send self m = (e, self', ts)" by (cases "send self m")
  have "logic self' = logic self" using send_keeps[of self m] st keeps_logic by fastforce
  then have ih: "fst (send_all self' ms) \<noteq> Some (ValueError s)" using Cons by simp
  have "e \<noteq> Some (ValueError s)" using send_no_ValueError[OF Cons.prems, of m s] st by simp
  then show ?case using st ih by (cases e) (auto split: prod.splits)
qed


section \<open>Slots holding distinct pairs\<close>

lemma bound_update_None: "distinct (bound q) \<Longrightarrow> distinct (bound (q[i := None]))"
proof (induction q arbitrary: i)
  case Nil
  then show ?case by simp
next
  case (Cons x q)
  show ?case
  proof (cases i)
    case 0
    then show ?thesis using Cons.prems by (simp add: bound_def split: if_splits)
  next
    case (Suc k)
    have "set (bound (q[k := None])) \<subseteq> insert None (set (bound q))"
      using set_update_subset_insert[of q k None] by (auto simp: bound_def)
    then show ?thesis using Suc Cons by (auto simp: bound_def split: if_splits)
  qed
qed

lemma bound_update_Some:
  "distinct (bound q) \<Longrightarrow> Some p \<notin> set q \<Longrightarrow> distinct (bound (q[i := Some p]))"
proof (induction q arbitrary: i)
  case Nil
  then show ?case by simp
next
  case (Cons x q)
  show ?case
  proof (cases i)
    case 0
    then show ?thesis using Cons.prems by (auto simp: bound_def split: if_splits)
  next
    case (Suc k)
    have "set (bound (q[k := Some p])) \<subseteq> insert (Some p) (set (bound q))"
      using set_update_subset_insert[of q k "Some p"] by (auto simp: bound_def)
    then show ?thesis using Suc Cons by (auto simp: bound_def split: if_splits)
  qed
qed

lemma release_distinct:
  "distinct (bound (queue self)) \<Longrightarrow> distinct (bound (queue (fst (snd (release self m idxs)))))"
  by (induction idxs) (auto simp: bound_update_None split: option.splits sum.splits)

lemma allocate_distinct:
  assumes "distinct (bound (queue self))" "channel m = Some c" "note m = Some n"
    "Some (c, n) \<notin> set (queue self)"
  shows "distinct (bound (queue (fst (snd (allocate self m idxs)))))"
  using assms
  by (induction idxs) (auto simp: bound_update_Some getattr_def emit_def Let_def split: sum.splits)

lemma send_port_cases:
  "fst (snd (send self m)) = self \<or>
   (logic self = ''polyphony'' \<and> fst (snd (send self m)) = fst (snd (polyphony self m)))"
  using single_voice_port[of self m]
  by (auto simp: send_def split: prod.splits option.splits)

lemma polyphony_kinds:
  "polyphony self (note_off c n v) = release self (note_off c n v) [0..<length (queue self)]"
  "polyphony self (note_on c n 0) = release self (note_on c n 0) [0..<length (queue self)]"
  "v \<noteq> 0 \<Longrightarrow> polyphony self (note_on c n v) = allocate self (note_on c n v) [0..<length (queue self)]"
  by (simp_all add: polyphony_def note_on_simps note_off_simps getattr_def)

lemma send_distinct_release:
  assumes "distinct (bound (queue self))"
  shows "distinct (bound (queue (fst (snd (send self (note_off c n v))))))"
    and "distinct (bound (queue (fst (snd (send self (note_on c n 0))))))"
    and "distinct (bound (queue (fst (snd (send self stop)))))"
  using assms send_port_cases[of self "note_off c n v"] send_port_cases[of self "note_on c n 0"]
    send_port_cases[of self stop] release_distinct[OF assms]
  by (auto simp: polyphony_kinds polyphony_stop)

lemma send_distinct_allocate:
  assumes "distinct (bound (queue self))" and "Some (c, n) \<notin> set (queue self)" and "v \<noteq> 0"
  shows "distinct (bound (queue (fst (snd (send self (note_on c n v))))))"
  using assms send_port_cases[of self "note_on c n v"]
    allocate_distinct[OF assms(1) _ _ assms(2), of "note_on c n v"]
  by (auto simp: polyphony_kinds note_on_simps)

lemma reachable_port_ok: "port_ok (fst (snd (send_all (port_init arg dbg lg) ms)))"
  using keeps_port_ok[OF send_all_keeps port_init_ok] .

lemma reachable_logic: "logic (fst (snd (send_all (port_init arg dbg lg) ms))) = lg"
  using keeps_logic[OF send_all_keeps, of "port_init arg dbg lg" ms] by (simp add: port_init_fields)


section \<open>Where STOP commands come from\<close>

text \<open>
  A message that is neither a \<open>stop\<close> nor a \<open>note_off\<close> nor a \<open>note_on\<close> of velocity 0, and
  whose note is not the sentinel, makes no handler issue a STOP.
\<close>

lemma play_on_played: "play_on cs a b n = Inr t \<Longrightarrow> played t = n"
  by (auto simp: play_on_def steam_controller_play_note_def Let_def split: sum.splits if_splits)

lemma emit_played:
  "n \<noteq> note_stop \<Longrightarrow> note_stop \<notin> played ` set (snd (snd (emit self (play_on cs a b n))))"
  by (cases "play_on cs a b n") (auto simp: emit_def dest: play_on_played)

lemma single_voice_no_stop:
  assumes "type m \<noteq> ''note_off''" and "velocity m \<noteq> Some 0" and "note m \<noteq> Some note_stop"
  shows "note_stop \<notin> played ` set (snd (snd (single_voice self m)))"
proof (cases "type m = ''note_on'' \<and> (\<exists>c. channel m = Some c \<and> c \<le> channels self)
              \<and> (\<exists>v. velocity m = Some v) \<and> (\<exists>n. note m = Some n)")
  case True
  then obtain c v n where f: "type m = ''note_on''" "channel m = Some c" "c \<le> channels self"
      "velocity m = Some v" "note m = Some n" by blast
  then have "v \<noteq> 0" "n \<noteq> note_stop" using assms by auto
  then show ?thesis using f emit_played[of n self "controllers self" "c div 2" "c mod 2"]
    by (simp add: single_voice_def getattr_def)
next
  case False
  then show ?thesis using assms
    by (auto simp: single_voice_def getattr_def Let_def split: option.splits)
qed

lemma allocate_no_stop:
  assumes "note m \<noteq> Some note_stop"
  shows "note_stop \<notin> played ` set (snd (snd (allocate self m idxs)))"
proof (induction idxs)
  case Nil
  then show ?case by simp
next
  case (Cons i rest)
  show ?case
  proof (cases "queue self ! i = None \<and> (\<exists>c. channel m = Some c) \<and> (\<exists>n. note m = Some n)")
    case True
    then obtain c n where f: "queue self ! i = None" "channel m = Some c" "note m = Some n" by blast
    then have "n \<noteq> note_stop" using assms by auto
    then show ?thesis
      using f emit_played[of n "self\<lparr>queue := (queue self)[i := Some (c, n)]\<rparr>" "controllers self"
          "int i div 2" "int i mod 2"]
      by (simp add: getattr_def)
  next
    case False
    then show ?thesis using Cons
      by (auto simp: getattr_def split: option.splits)
  qed
qed

lemma polyphony_no_stop:
  assumes "type m \<noteq> ''note_off''" and "velocity m \<noteq> Some 0" and "note m \<noteq> Some note_stop"
  shows "note_stop \<notin> played ` set (snd (snd (polyphony self m)))"
proof (cases "velocity m")
  case None
  then show ?thesis using assms(1) by (simp add: polyphony_def getattr_def)
next
  case (Some v)
  then have "v \<noteq> 0" using assms(2) by simp
  then show ?thesis
    using Some assms(1) allocate_no_stop[OF assms(3), of self "[0..<length (queue self)]"]
    by (simp add: polyphony_def getattr_def)
qed

lemma send_no_stop:
  assumes "type m \<noteq> ''stop''" and "type m \<noteq> ''note_off''" and "velocity m \<noteq> Some 0"
    and "note m \<noteq> Some note_stop"
  shows "note_stop \<notin> played ` set (snd (snd (send self m)))"
  using assms(1) single_voice_no_stop[OF assms(2,3,4), of self]
    polyphony_no_stop[OF assms(2,3,4), of self]
  by (auto simp: send_def split: prod.splits)

lemma send_all_no_stop:
  assumes "\<forall>m\<in>set ms. type m \<noteq> ''stop'' \<and> type m \<noteq> ''note_off'' \<and> velocity m \<noteq> Some 0 \<and>
             note m \<noteq> Some note_stop"
  shows "note_stop \<notin> played ` set (snd (snd (send_all self ms)))"
  using assms
proof (induction ms arbitrary: self)
  case Nil
  then show ?case by simp
next
  case (Cons m ms)
  obtain e self' ts where st: "send self m = (e, self', ts)" by (cases "send self m")
  have here: "note_stop \<notin> played ` set ts"
    using send_no_stop[of m self] Cons.prems st by simp
  show ?case
  proof (cases e)
    case None
    obtain e' self'' ts' where r: "send_all self' ms = (e', self'', ts')"
      by (cases "send_all self' ms")
    have "note_stop \<notin> played ` set ts'" using Cons.IH[of self'] Cons.prems r by simp
    then show ?thesis using st None r here by auto
  next
    case (Some a)
    then show ?thesis using st here by simp
  qed
qed

lemma keeps_controllers: "keeps self self' \<Longrightarrow> controllers self' = controllers self"
  unfolding keeps_def by (metis port.select_convs(1) port.surjective port.update_convs(6))

section \<open>The claims\<close>

text \<open>
  In the statements below \<open>port_ok self\<close> holds of every port that the constructor builds and
  of every port reached from one by sending messages (\<open>port_init_ok\<close>, \<open>reachable_port_ok\<close>);
  \<open>command cs i n\<close> is the command \<open>(i, n)\<close> on physical channel \<open>i\<close>, and a result is the
  triple of the exception raised (if any), the port afterwards and the commands issued.
\<close>

subsection \<open>C1\<close>

text \<open>
  C1, as amended.  Under the polyphony policy, after every sequence of messages the queue
  still has exactly K = 2 * (number of controllers) slots, so at most K pairs are bound at
  any time.  The code does not keep two occupied slots from holding the same
  \<open>(source_channel, note)\<close> pair: a \<open>note_on\<close> of non-zero velocity binds the first free slot
  without looking for the pair.  What holds is that slots holding distinct pairs still do so
  after a \<open>note_off\<close>, a \<open>stop\<close>, a \<open>note_on\<close> of velocity 0, and a \<open>note_on\<close> whose pair is
  not bound at that moment.
\<close>

theorem polyphony_pool_bound:
  "length (queue (fst (snd (send_all (port_init (A_list cs) dbg ''polyphony'') ms)))) = 2 * length cs \<and>
   length (bound (queue (fst (snd (send_all (port_init (A_list cs) dbg ''polyphony'') ms))))) \<le> 2 * length cs \<and>
   (distinct (bound (queue self)) \<longrightarrow>
      distinct (bound (queue (fst (snd (send self (note_off c n v)))))) \<and>
      distinct (bound (queue (fst (snd (send self stop))))) \<and>
      (v = 0 \<or> Some (c, n) \<notin> set (queue self) \<longrightarrow>
         distinct (bound (queue (fst (snd (send self (note_on c n v))))))))"
proof -
  let ?p = "fst (snd (send_all (port_init (A_list cs) dbg ''polyphony'') ms))"
  have "keeps (port_init (A_list cs) dbg ''polyphony'') ?p" by (rule send_all_keeps)
  then have len: "length (queue ?p) = 2 * length cs"
    by (simp add: keeps_def port_init_fields)
  have "length (bound (queue ?p)) \<le> length (queue ?p)"
    by (simp add: bound_def)
  then have le: "length (bound (queue ?p)) \<le> 2 * length cs" using len by simp
  have step: "distinct (bound (queue self)) \<longrightarrow>
      distinct (bound (queue (fst (snd (send self (note_off c n v)))))) \<and>
      distinct (bound (queue (fst (snd (send self stop))))) \<and>
      (v = 0 \<or> Some (c, n) \<notin> set (queue self) \<longrightarrow>
         distinct (bound (queue (fst (snd (send self (note_on c n v)))))))"
    using send_distinct_release(1)[where self=self and c=c and n=n and v=v]
      send_distinct_release(2)[where self=self and c=c and n=n]
      send_distinct_release(3)[where self=self]
      send_distinct_allocate[where self=self and c=c and n=n and v=v]
    by (cases "v = 0") auto
  show ?thesis using len le step by blast
qed

text \<open>The theorem at a port with one bound slot and a \<open>note_on\<close> for another pair.\<close>

theorem polyphony_pool_bound_witness:
  "distinct (bound [Some (0, 60), None]) \<and> Some (0::int, 64::int) \<notin> set [Some (0, 60), None] \<and>
   distinct (bound (queue (fst (snd (send
      ((port_init (A_list [0::nat]) False ''polyphony'')\<lparr>queue := [Some (0, 60), None]\<rparr>)
      (note_on 0 64 100)))))) \<and>
   length (queue (fst (snd (send_all (port_init (A_list [0::nat]) False ''polyphony'')
      [note_on 0 60 100, note_on 0 60 100])))) = 2"
proof -
  let ?self = "(port_init (A_list [0::nat]) False ''polyphony'')\<lparr>queue := [Some (0, 60), None]\<rparr>"
  have d: "distinct (bound (queue ?self))" by (simp add: bound_def)
  have f: "Some (0, 64) \<notin> set (queue ?self)" by simp
  show ?thesis
    using d f
      polyphony_pool_bound[where cs="[0::nat]" and dbg=False
        and ms="[note_on 0 60 100, note_on 0 60 100]" and self="?self" and c=0 and n=64 and v=100]
    by simp
qed

text \<open>
  C1 as stated fails: with one controller, two \<open>note_on\<close> messages for channel 0, note 60
  leave both slots bound to the pair \<open>(0, 60)\<close>.
\<close>

theorem double_binding_counterexample:
  "send_all (port_init (A_list [0::nat]) False ''polyphony'') [note_on 0 60 100, note_on 0 60 100] =
   (None, (port_init (A_list [0::nat]) False ''polyphony'')\<lparr>queue := [Some (0, 60), Some (0, 60)]\<rparr>,
    [Play_note 0 0 60, Play_note 0 1 60])"
  by (simp add: eval_defs upt_conv_Cons eval_nat_numeral)

subsection \<open>C2\<close>

text \<open>
  C2, as amended.  When the file is played to its end with no interrupt, \<open>play_song\<close> sends
  the file's own messages and no \<open>stop\<close> message, so it issues the commands of those
  messages and nothing more; in particular, a file that holds no \<open>stop\<close>, no \<open>note_off\<close>, no
  \<open>note_on\<close> of velocity 0 and no note equal to the sentinel issues no STOP command at all.
  The \<open>stop\<close> message is sent by the handler of \<open>KeyboardInterrupt\<close> only: when the interrupt
  arrives after \<open>k\<close> messages have been sent without an exception (\<open>k\<close> may be the number of
  messages of the file), the commands of those messages are followed by STOP on every
  physical channel, in order.
\<close>

theorem play_song_stops_only_on_interrupt:
  "play_song arg song lg None = send_all (port_init arg False lg) song \<and>
   ((\<forall>m\<in>set song. type m \<noteq> ''stop'' \<and> type m \<noteq> ''note_off'' \<and> velocity m \<noteq> Some 0 \<and>
                   note m \<noteq> Some note_stop) \<longrightarrow>
      note_stop \<notin> played ` set (snd (snd (play_song arg song lg None)))) \<and>
   (fst (send_all (port_init (A_list cs) False lg) (take k song)) = None \<longrightarrow>
      snd (snd (play_song (A_list cs) song lg (Some k))) =
        snd (snd (send_all (port_init (A_list cs) False lg) (take k song))) @
        map (\<lambda>i. command cs i note_stop) [0..<2 * length cs])"
proof (intro conjI impI)
  show "play_song arg song lg None = send_all (port_init arg False lg) song"
    by (simp add: play_song_def)
next
  assume "\<forall>m\<in>set song. type m \<noteq> ''stop'' \<and> type m \<noteq> ''note_off'' \<and> velocity m \<noteq> Some 0 \<and>
                   note m \<noteq> Some note_stop"
  then show "note_stop \<notin> played ` set (snd (snd (play_song arg song lg None)))"
    using send_all_no_stop[of song "port_init arg False lg"] by (simp add: play_song_def)
next
  let ?port = "port_init (A_list cs) False lg"
  assume a: "fst (send_all ?port (take k song)) = None"
  obtain port' ts where r: "send_all ?port (take k song) = (None, port', ts)"
    using a by (cases "send_all ?port (take k song)") auto
  have k: "keeps ?port port'" using send_all_keeps[of ?port "take k song"] r by simp
  then have ok: "port_ok port'" using keeps_port_ok port_init_ok by blast
  have cs: "controllers port' = cs"
    using keeps_controllers[OF k] by (simp add: port_init_fields)
  show "snd (snd (play_song (A_list cs) song lg (Some k))) =
        snd (snd (send_all ?port (take k song))) @ map (\<lambda>i. command cs i note_stop) [0..<2 * length cs]"
    using r cs by (simp add: play_song_def send_stop[OF ok])
qed

text \<open>
  The theorem for a file of two \<open>note_on\<close> messages: played to its end it issues no STOP;
  interrupted after the first message, or after the second and last one, it issues the
  commands of the messages sent and then STOP on both channels.
\<close>

theorem play_song_stops_only_on_interrupt_witness:
  "type (note_on 0 60 100) \<noteq> ''stop'' \<and> type (note_on 0 60 100) \<noteq> ''note_off'' \<and>
   velocity (note_on 0 60 100) \<noteq> Some 0 \<and> note (note_on 0 60 100) \<noteq> Some note_stop \<and>
   type (note_on 1 62 100) \<noteq> ''stop'' \<and> type (note_on 1 62 100) \<noteq> ''note_off'' \<and>
   velocity (note_on 1 62 100) \<noteq> Some 0 \<and> note (note_on 1 62 100) \<noteq> Some note_stop \<and>
   note_stop \<notin> played ` set (snd (snd (play_song (A_list [0::nat])
      [note_on 0 60 100, note_on 1 62 100] ''polyphony'' None))) \<and>
   fst (send_all (port_init (A_list [0::nat]) False ''polyphony'')
      (take 1 [note_on 0 60 100, note_on 1 62 100])) = None \<and>
   snd (snd (play_song (A_list [0::nat]) [note_on 0 60 100, note_on 1 62 100] ''polyphony'' (Some 1))) =
     [Play_note 0 0 60, Play_note 0 0 note_stop, Play_note 0 1 note_stop] \<and>
   fst (send_all (port_init (A_list [0::nat]) False ''polyphony'')
      (take 2 [note_on 0 60 100, note_on 1 62 100])) = None \<and>
   snd (snd (play_song (A_list [0::nat]) [note_on 0 60 100, note_on 1 62 100] ''polyphony'' (Some 2))) =
     [Play_note 0 0 60, Play_note 0 1 62, Play_note 0 0 note_stop, Play_note 0 1 note_stop]"
proof -
  let ?song = "[note_on 0 60 100, note_on 1 62 100]"
  let ?port = "port_init (A_list [0::nat]) False ''polyphony''"
  have quiet: "\<forall>m\<in>set ?song. type m \<noteq> ''stop'' \<and> type m \<noteq> ''note_off'' \<and> velocity m \<noteq> Some 0 \<and>
                 note m \<noteq> Some note_stop"
    by (simp add: note_on_def note_stop_def)
  have r1: "send_all ?port (take 1 ?song) = (None, ?port\<lparr>queue := [Some (0, 60), None]\<rparr>, [Play_note 0 0 60])"
    by (simp add: eval_defs upt_conv_Cons eval_nat_numeral)
  have r2: "send_all ?port (take 2 ?song) =
            (None, ?port\<lparr>queue := [Some (0, 60), Some (1, 62)]\<rparr>, [Play_note 0 0 60, Play_note 0 1 62])"
    by (simp add: eval_defs upt_conv_Cons eval_nat_numeral)
  have stops: "map (\<lambda>i. command [0::nat] i note_stop) [0..<2 * length [0::nat]] =
               [Play_note 0 0 note_stop, Play_note 0 1 note_stop]"
    by (simp add: command_def upt_conv_Cons eval_nat_numeral)
  have each: "type (note_on 0 60 100) \<noteq> ''stop'' \<and> type (note_on 0 60 100) \<noteq> ''note_off'' \<and>
      velocity (note_on 0 60 100) \<noteq> Some 0 \<and> note (note_on 0 60 100) \<noteq> Some note_stop \<and>
      type (note_on 1 62 100) \<noteq> ''stop'' \<and> type (note_on 1 62 100) \<noteq> ''note_off'' \<and>
      velocity (note_on 1 62 100) \<noteq> Some 0 \<and> note (note_on 1 62 100) \<noteq> Some note_stop"
    by (simp add: note_on_def note_stop_def)
  show ?thesis
    using each quiet r1 r2 stops
      play_song_stops_only_on_interrupt[where song="?song" and cs="[0::nat]" and k=1
        and lg="''polyphony''" and arg="A_list [0::nat]"]
      play_song_stops_only_on_interrupt[where song="?song" and cs="[0::nat]" and k=2
        and lg="''polyphony''" and arg="A_list [0::nat]"]
    by simp
qed

text \<open>
  C2 as stated fails: a file of a single \<open>note_on\<close>, played to its end, issues the command for
  note 60 on channel 0 and no STOP at all.
\<close>

theorem play_song_no_final_stop_counterexample:
  "play_song (A_list [0::nat]) [note_on 0 60 100] ''single_voice'' None =
   (None, port_init (A_list [0::nat]) False ''single_voice'', [Play_note 0 0 60])"
  by (simp add: eval_defs)

subsection \<open>C3\<close>

text \<open>
  C3, as amended.  A \<open>stop\<close> message given to \<open>_send\<close> issues \<open>(channel, STOP)\<close> for every
  physical channel 0 .. 2N-1, in this order and whatever the slots hold, and leaves the port
  as it was: under the polyphony policy no exception is raised and the slots are not cleared.
\<close>

theorem stop_silences_every_channel:
  assumes "port_ok self"
  shows "snd (snd (send self stop)) =
           map (\<lambda>i. command (controllers self) i note_stop) [0..<2 * length (controllers self)] \<and>
         fst (snd (send self stop)) = self \<and>
         (logic self = ''polyphony'' \<longrightarrow>
            send self stop =
              (None, self, map (\<lambda>i. command (controllers self) i note_stop) [0..<2 * length (controllers self)]))"
  using assms by (simp add: send_stop)

text \<open>The theorem at a polyphony port with one bound slot.\<close>

theorem stop_silences_every_channel_witness:
  "port_ok ((port_init (A_list [0::nat]) False ''polyphony'')\<lparr>queue := [Some (0, 60), None]\<rparr>) \<and>
   send ((port_init (A_list [0::nat]) False ''polyphony'')\<lparr>queue := [Some (0, 60), None]\<rparr>) stop =
     (None, (port_init (A_list [0::nat]) False ''polyphony'')\<lparr>queue := [Some (0, 60), None]\<rparr>,
      [Play_note 0 0 note_stop, Play_note 0 1 note_stop])"
proof -
  let ?self = "(port_init (A_list [0::nat]) False ''polyphony'')\<lparr>queue := [Some (0, 60), None]\<rparr>"
  have ok: "port_ok ?self" by (simp add: port_ok_def port_init_def)
  have lg: "logic ?self = ''polyphony''" by (simp add: port_init_def)
  have cs: "controllers ?self = [0]" by (simp add: port_init_def)
  show ?thesis
    using ok lg cs stop_silences_every_channel[OF ok]
    by (simp add: command_def upt_conv_Cons eval_nat_numeral)
qed

text \<open>
  C3 as stated fails: under polyphony, after \<open>note_on\<close> then \<open>stop\<close>, slot 0 is still bound to
  \<open>(0, 60)\<close>.
\<close>

theorem stop_keeps_slots_counterexample:
  "send_all (port_init (A_list [0::nat]) False ''polyphony'') [note_on 0 60 100, stop] =
   (None, (port_init (A_list [0::nat]) False ''polyphony'')\<lparr>queue := [Some (0, 60), None]\<rparr>,
    [Play_note 0 0 60, Play_note 0 0 note_stop, Play_note 0 1 note_stop])"
  by (simp add: eval_defs upt_conv_Cons eval_nat_numeral)

subsection \<open>C4\<close>

text \<open>
  C4, as amended.  The constructor accepts every policy name.  A name that is neither
  \<open>single_voice\<close> nor \<open>polyphony\<close> makes \<open>_send\<close> raise \<open>ValueError\<close> for every message, so the
  error is raised while the first message of a stream is processed (and ends the stream
  there); with one of the two names no sequence of messages raises \<open>ValueError\<close>.
\<close>

theorem policy_name_error_raised_by_send:
  "(lg \<noteq> ''single_voice'' \<and> lg \<noteq> ''polyphony'' \<longrightarrow>
      fst (send (port_init arg dbg lg) m) = Some (ValueError (''Invalid logic type: '' @ lg)) \<and>
      fst (send_all (port_init arg dbg lg) (m # ms)) = Some (ValueError (''Invalid logic type: '' @ lg))) \<and>
   (lg = ''single_voice'' \<or> lg = ''polyphony'' \<longrightarrow>
      fst (send_all (port_init arg dbg lg) ms) \<noteq> Some (ValueError s))"
proof (intro conjI impI)
  assume a: "lg \<noteq> ''single_voice'' \<and> lg \<noteq> ''polyphony''"
  show 1: "fst (send (port_init arg dbg lg) m) = Some (ValueError (''Invalid logic type: '' @ lg))"
    using a send_invalid_logic[OF port_init_ok, of arg dbg lg m] by (simp add: port_init_fields)
  then show "fst (send_all (port_init arg dbg lg) (m # ms)) = Some (ValueError (''Invalid logic type: '' @ lg))"
    by (cases "send (port_init arg dbg lg) m") simp
next
  assume "lg = ''single_voice'' \<or> lg = ''polyphony''"
  then show "fst (send_all (port_init arg dbg lg) ms) \<noteq> Some (ValueError s)"
    using send_all_no_ValueError[of "port_init arg dbg lg" ms s] by (simp add: port_init_fields)
qed

text \<open>The theorem for the name \<open>foo\<close> and for the name \<open>polyphony\<close>.\<close>

theorem policy_name_error_raised_by_send_witness:
  "''foo'' \<noteq> ''single_voice'' \<and> ''foo'' \<noteq> ''polyphony'' \<and>
   fst (send_all (port_init (A_list [0::nat]) False ''foo'') [note_on 0 60 100, note_off 0 60 0]) =
     Some (ValueError ''Invalid logic type: foo'') \<and>
   fst (send_all (port_init (A_list [0::nat]) False ''polyphony'') [note_on 0 60 100, note_off 0 60 0]) \<noteq>
     Some (ValueError ''Invalid logic type: polyphony'')"
  using policy_name_error_raised_by_send[where lg="''foo''" and arg="A_list [0::nat]" and dbg=False
      and m="note_on 0 60 100" and ms="[note_off 0 60 0]"]
    policy_name_error_raised_by_send[where lg="''polyphony''" and arg="A_list [0::nat]" and dbg=False
      and ms="[note_on 0 60 100, note_off 0 60 0]" and s="''Invalid logic type: polyphony''"]
  by simp

text \<open>
  C4 as stated fails: a port with the policy name \<open>foo\<close> is constructed, and the error is
  raised when it processes a \<open>note_on\<close>.
\<close>

theorem policy_name_error_counterexample:
  "send (port_init (A_list [0::nat]) False ''foo'') (note_on 0 60 100) =
   (Some (ValueError ''Invalid logic type: foo''), port_init (A_list [0::nat]) False ''foo'', [])"
  by (simp add: eval_defs)

subsection \<open>C5\<close>

text \<open>
  C5.  Under the single-voice policy, a \<open>note_on\<close> or \<open>note_off\<close> whose source channel \<open>c\<close>
  lies outside \<open>[0, 2N)\<close> is ignored: no exception, no command, no change of the port.
  The channel is one that a \<open>mido\<close> message can carry, that is one of 0 .. 15; a message
  with a negative channel does not exist, and the guard \<open>msg.channel <= self.channels\<close> is
  all that the handler needs for the channels that do.
\<close>

theorem single_voice_ignores_out_of_range_channel:
  assumes "port_ok self" and "logic self = ''single_voice''"
    and "mido_channel c"
    and "\<not> (0 \<le> c \<and> c < 2 * int (length (controllers self)))"
  shows "send self (note_on c n v) = (None, self, []) \<and> send self (note_off c n v) = (None, self, [])"
proof -
  have "0 \<le> c" using assms(3) by (simp add: mido_channel_def)
  then have "\<not> c \<le> channels self" using assms(1,4) by (simp add: port_ok_def)
  then show ?thesis using assms(2)
    by (simp add: send_single_voice single_voice_def note_on_simps note_off_simps getattr_def)
qed

text \<open>The theorem with one controller (channels 0 and 1) and source channel 2.\<close>

theorem single_voice_ignores_out_of_range_channel_witness:
  "port_ok (port_init (A_list [0::nat]) False ''single_voice'') \<and>
   mido_channel 2 \<and>
   \<not> ((0::int) \<le> 2 \<and> 2 < 2 * int (length (controllers (port_init (A_list [0::nat]) False ''single_voice'')))) \<and>
   send (port_init (A_list [0::nat]) False ''single_voice'') (note_on 2 60 100) =
     (None, port_init (A_list [0::nat]) False ''single_voice'', []) \<and>
   send (port_init (A_list [0::nat]) False ''single_voice'') (note_off 2 60 64) =
     (None, port_init (A_list [0::nat]) False ''single_voice'', [])"
proof -
  let ?self = "port_init (A_list [0::nat]) False ''single_voice''"
  have ok: "port_ok ?self" by (simp add: port_ok_def port_init_def)
  have lg: "logic ?self = ''single_voice''" by (simp add: port_init_def)
  have ch: "mido_channel 2" by (simp add: mido_channel_def)
  have c: "\<not> ((0::int) \<le> 2 \<and> 2 < 2 * int (length (controllers ?self)))" by (simp add: port_init_def)
  show ?thesis
    using ok ch c
      single_voice_ignores_out_of_range_channel[OF ok lg ch c, of 60 100]
      single_voice_ignores_out_of_range_channel[OF ok lg ch c, of 60 64]
    by simp
qed

subsection \<open>C6\<close>

text \<open>
  C6.  Under the polyphony policy, for a \<open>note_on\<close> of velocity greater than 0 (and a note of
  the MIDI range 0 .. 127): if slot \<open>i\<close> is the free slot of lowest index, it is bound to
  \<open>(source_channel, note)\<close> and exactly the command \<open>(i, note)\<close> is issued; if no slot is free,
  nothing is issued and the port does not change.  With two controllers, the messages
  \<open>note_on(0, 60, 100)\<close>, \<open>note_on(0, 64, 100)\<close>, \<open>note_off(0, 60)\<close> issue exactly
  \<open>(0, 60)\<close>, \<open>(1, 64)\<close>, \<open>(0, STOP)\<close> and leave slot 0 free.
\<close>

theorem polyphony_note_on_first_free:
  assumes "port_ok self" and "logic self = ''polyphony''" and "0 < v" and "0 \<le> n" and "n < 128"
  shows "(\<forall>i. i < length (queue self) \<and> queue self ! i = None \<and> (\<forall>j<i. queue self ! j \<noteq> None) \<longrightarrow>
            send self (note_on c n v) =
            (None, self\<lparr>queue := (queue self)[i := Some (c, n)]\<rparr>, [command (controllers self) i n])) \<and>
         (None \<notin> set (queue self) \<longrightarrow> send self (note_on c n v) = (None, self, [])) \<and>
         send_all (port_init (A_list [d0, d1]) dbg ''polyphony'')
            [note_on 0 60 100, note_on 0 64 100, note_off 0 60 w] =
         (None, (port_init (A_list [d0, d1]) dbg ''polyphony'')\<lparr>queue := [None, Some (0, 64), None, None]\<rparr>,
          [command [d0, d1] 0 60, command [d0, d1] 1 64, command [d0, d1] 0 note_stop])"
proof (intro conjI allI impI)
  fix i
  assume "i < length (queue self) \<and> queue self ! i = None \<and> (\<forall>j<i. queue self ! j \<noteq> None)"
  then show "send self (note_on c n v) =
     (None, self\<lparr>queue := (queue self)[i := Some (c, n)]\<rparr>, [command (controllers self) i n])"
    using assms allocate_first[of "note_on c n v" c n i self]
    by (simp add: send_polyphony_note_on port_ok_def note_on_simps)
next
  assume "None \<notin> set (queue self)"
  then show "send self (note_on c n v) = (None, self, [])"
    using assms by (simp add: send_polyphony_note_on allocate_full)
next
  show "send_all (port_init (A_list [d0, d1]) dbg ''polyphony'')
            [note_on 0 60 100, note_on 0 64 100, note_off 0 60 w] =
         (None, (port_init (A_list [d0, d1]) dbg ''polyphony'')\<lparr>queue := [None, Some (0, 64), None, None]\<rparr>,
          [command [d0, d1] 0 60, command [d0, d1] 1 64, command [d0, d1] 0 note_stop])"
    by (simp add: eval_defs upt_conv_Cons eval_nat_numeral)
qed

text \<open>The theorem at an empty port (slot 0 is taken) and at a full one (the note is dropped).\<close>

theorem polyphony_note_on_first_free_witness:
  "port_ok (port_init (A_list [0::nat]) False ''polyphony'') \<and>
   send (port_init (A_list [0::nat]) False ''polyphony'') (note_on 0 60 100) =
     (None, (port_init (A_list [0::nat]) False ''polyphony'')\<lparr>queue := [Some (0, 60), None]\<rparr>,
      [Play_note 0 0 60]) \<and>
   send ((port_init (A_list [0::nat]) False ''polyphony'')\<lparr>queue := [Some (0, 60), Some (0, 64)]\<rparr>)
        (note_on 0 67 100) =
     (None, (port_init (A_list [0::nat]) False ''polyphony'')\<lparr>queue := [Some (0, 60), Some (0, 64)]\<rparr>, [])"
proof -
  let ?empty = "port_init (A_list [0::nat]) False ''polyphony''"
  let ?full = "?empty\<lparr>queue := [Some (0, 60), Some (0, 64)]\<rparr>"
  have ok: "port_ok ?empty" "port_ok ?full" by (simp_all add: port_ok_def port_init_def)
  have lg: "logic ?empty = ''polyphony''" "logic ?full = ''polyphony''" by (simp_all add: port_init_def)
  have v: "(0::int) < 100" and n60: "(0::int) \<le> 60" "(60::int) < 128"
    and n67: "(0::int) \<le> 67" "(67::int) < 128" by simp_all
  have q: "queue ?empty = [None, None]" "controllers ?empty = [0]"
    by (simp_all add: port_init_def eval_nat_numeral)
  have free: "0 < length (queue ?empty) \<and> queue ?empty ! 0 = None \<and> (\<forall>j<0. queue ?empty ! j \<noteq> None)"
    by (simp add: q)
  have full: "None \<notin> set (queue ?full)" by simp
  have "send ?empty (note_on 0 60 100) =
        (None, ?empty\<lparr>queue := (queue ?empty)[0 := Some (0, 60)]\<rparr>, [command (controllers ?empty) 0 60])"
    using free
      polyphony_note_on_first_free[OF ok(1) lg(1) v n60, where c=0 and ?d0.0="0::nat"
        and ?d1.0="1::nat" and dbg=False and w=0, THEN conjunct1, THEN spec, of 0]
    by blast
  moreover have "send ?full (note_on 0 67 100) = (None, ?full, [])"
    using full
      polyphony_note_on_first_free[OF ok(2) lg(2) v n67, where c=0 and ?d0.0="0::nat"
        and ?d1.0="1::nat" and dbg=False and w=0, THEN conjunct2, THEN conjunct1]
    by blast
  ultimately show ?thesis using ok(1) q by (simp add: command_def)
qed

subsection \<open>C7\<close>

text \<open>
  C7.  Under the polyphony policy, for a \<open>note_off\<close> and for a \<open>note_on\<close> of velocity 0: if
  slot \<open>i\<close> is the slot of lowest index bound to \<open>(source_channel, note)\<close>, exactly the command
  \<open>(i, STOP)\<close> is issued and slot \<open>i\<close> alone is cleared; if no slot is bound to the pair,
  nothing is issued and the port does not change.
\<close>

theorem polyphony_release_first_match:
  assumes "port_ok self" and "logic self = ''polyphony''"
  shows "(\<forall>i. i < length (queue self) \<and> queue self ! i = Some (c, n) \<and>
              (\<forall>j<i. queue self ! j \<noteq> Some (c, n)) \<longrightarrow>
            send self (note_off c n v) =
              (None, self\<lparr>queue := (queue self)[i := None]\<rparr>, [command (controllers self) i note_stop]) \<and>
            send self (note_on c n 0) =
              (None, self\<lparr>queue := (queue self)[i := None]\<rparr>, [command (controllers self) i note_stop])) \<and>
         (Some (c, n) \<notin> set (queue self) \<longrightarrow>
            send self (note_off c n v) = (None, self, []) \<and>
            send self (note_on c n 0) = (None, self, []))"
proof (intro conjI allI impI)
  fix i
  assume a: "i < length (queue self) \<and> queue self ! i = Some (c, n) \<and>
              (\<forall>j<i. queue self ! j \<noteq> Some (c, n))"
  have len: "length (queue self) \<le> 2 * length (controllers self)"
    using assms(1) by (simp add: port_ok_def)
  show "send self (note_off c n v) =
        (None, self\<lparr>queue := (queue self)[i := None]\<rparr>, [command (controllers self) i note_stop])"
    using a len assms(2) release_first[of "note_off c n v" c n i self]
    by (simp add: send_polyphony_note_off note_off_simps)
  show "send self (note_on c n 0) =
        (None, self\<lparr>queue := (queue self)[i := None]\<rparr>, [command (controllers self) i note_stop])"
    using a len assms(2) release_first[of "note_on c n 0" c n i self]
    by (simp add: send_polyphony_note_on_zero note_on_simps)
next
  assume a: "Some (c, n) \<notin> set (queue self)"
  show "send self (note_off c n v) = (None, self, [])"
    using a assms(2) release_none[of "note_off c n v" c n self]
    by (simp add: send_polyphony_note_off note_off_simps)
  show "send self (note_on c n 0) = (None, self, [])"
    using a assms(2) release_none[of "note_on c n 0" c n self]
    by (simp add: send_polyphony_note_on_zero note_on_simps)
qed

text \<open>The theorem at a port where slot 1 matches, and for a pair that no slot holds.\<close>

theorem polyphony_release_first_match_witness:
  "port_ok ((port_init (A_list [0::nat]) False ''polyphony'')\<lparr>queue := [Some (0, 64), Some (0, 60)]\<rparr>) \<and>
   send ((port_init (A_list [0::nat]) False ''polyphony'')\<lparr>queue := [Some (0, 64), Some (0, 60)]\<rparr>)
        (note_off 0 60 0) =
     (None, (port_init (A_list [0::nat]) False ''polyphony'')\<lparr>queue := [Some (0, 64), None]\<rparr>,
      [Play_note 0 1 note_stop]) \<and>
   send ((port_init (A_list [0::nat]) False ''polyphony'')\<lparr>queue := [Some (0, 64), Some (0, 60)]\<rparr>)
        (note_on 0 72 0) =
     (None, (port_init (A_list [0::nat]) False ''polyphony'')\<lparr>queue := [Some (0, 64), Some (0, 60)]\<rparr>, [])"
proof -
  let ?self = "(port_init (A_list [0::nat]) False ''polyphony'')\<lparr>queue := [Some (0, 64), Some (0, 60)]\<rparr>"
  have ok: "port_ok ?self" by (simp add: port_ok_def port_init_def)
  have lg: "logic ?self = ''polyphony''" by (simp add: port_init_def)
  have q: "queue ?self = [Some (0, 64), Some (0, 60)]" "controllers ?self = [0]"
    by (simp_all add: port_init_def)
  have hit: "1 < length (queue ?self) \<and> queue ?self ! 1 = Some (0, 60) \<and>
             (\<forall>j<1. queue ?self ! j \<noteq> Some (0, 60))"
    by (simp add: q)
  have miss: "Some (0, 72) \<notin> set (queue ?self)" by (simp add: q)
  have "send ?self (note_off 0 60 0) =
        (None, ?self\<lparr>queue := (queue ?self)[1 := None]\<rparr>, [command (controllers ?self) 1 note_stop])"
    using hit polyphony_release_first_match[OF ok lg, of 0 60 0, THEN conjunct1, THEN spec, of 1]
    by blast
  moreover have "send ?self (note_on 0 72 0) = (None, ?self, [])"
    using miss polyphony_release_first_match[OF ok lg, of 0 72 0, THEN conjunct2]
    by blast
  ultimately show ?thesis using ok q by (simp add: command_def)
qed

subsection \<open>C8\<close>

text \<open>
  C8.  Under the single-voice policy, for a source channel \<open>c\<close> with \<open>0 \<le> c < 2N\<close> and any
  note, a \<open>note_on\<close> of velocity 0 and a \<open>note_off\<close> have the same result: the command
  \<open>(c, STOP)\<close>, no exception and the port unchanged.
\<close>

theorem single_voice_zero_velocity_is_note_off:
  assumes "port_ok self" and "logic self = ''single_voice''"
    and "0 \<le> c" and "c < 2 * int (length (controllers self))"
  shows "send self (note_on c n 0) = send self (note_off c n v) \<and>
         send self (note_off c n v) = (None, self, [command (controllers self) (nat c) note_stop])"
proof -
  have le: "c \<le> channels self" using assms(1,4) by (simp add: port_ok_def)
  have off: "send self (note_off c n v) = (None, self, [command (controllers self) (nat c) note_stop])"
    using le assms(2) play_on_channel[OF assms(3,4)]
    by (simp add: send_single_voice single_voice_def note_off_simps getattr_def emit_def)
  have on: "send self (note_on c n 0) = (None, self, [command (controllers self) (nat c) note_stop])"
    using le assms(2) play_on_channel[OF assms(3,4)]
    by (simp add: send_single_voice single_voice_def note_on_simps getattr_def emit_def)
  show ?thesis using on off by simp
qed

text \<open>The theorem with one controller and source channel 1.\<close>

theorem single_voice_zero_velocity_is_note_off_witness:
  "port_ok (port_init (A_list [0::nat]) False ''single_voice'') \<and>
   send (port_init (A_list [0::nat]) False ''single_voice'') (note_on 1 60 0) =
     send (port_init (A_list [0::nat]) False ''single_voice'') (note_off 1 60 64) \<and>
   send (port_init (A_list [0::nat]) False ''single_voice'') (note_off 1 60 64) =
     (None, port_init (A_list [0::nat]) False ''single_voice'', [Play_note 0 1 note_stop])"
proof -
  let ?self = "port_init (A_list [0::nat]) False ''single_voice''"
  have ok: "port_ok ?self" by (simp add: port_ok_def port_init_def)
  have lg: "logic ?self = ''single_voice''" by (simp add: port_init_def)
  have c: "(0::int) \<le> 1" "1 < 2 * int (length (controllers ?self))" by (simp_all add: port_init_def)
  have cs: "controllers ?self = [0]" by (simp add: port_init_def)
  show ?thesis
    using ok cs single_voice_zero_velocity_is_note_off[OF ok lg c, of 60 64]
    by (simp add: command_def)
qed

subsection \<open>C9\<close>



subsection \<open>C10\<close>

text \<open>
  C10.  Under the single-voice policy, \<open>_send\<close> given a \<open>stop\<close> message issues STOP on every
  physical channel and then hands the message to \<open>single_voice\<close>, whose first step reads the
  \<open>channel\<close> attribute that a \<open>stop\<close> message lacks: the result is \<open>AttributeError\<close>, raised
  after the STOP commands.
\<close>

theorem single_voice_stop_reads_absent_channel:
  assumes "port_ok self" and "logic self = ''single_voice''"
  shows "single_voice self stop = (Some (AttributeError ''channel''), self, []) \<and>
         send self stop =
           (Some (AttributeError ''channel''), self,
            map (\<lambda>i. command (controllers self) i note_stop) [0..<2 * length (controllers self)])"
  using assms by (simp add: send_stop single_voice_stop)

text \<open>The theorem at the port that the constructor builds for one controller.\<close>

theorem single_voice_stop_reads_absent_channel_witness:
  "port_ok (port_init (A_list [0::nat]) False ''single_voice'') \<and>
   logic (port_init (A_list [0::nat]) False ''single_voice'') = ''single_voice'' \<and>
   send (port_init (A_list [0::nat]) False ''single_voice'') stop =
     (Some (AttributeError ''channel''), port_init (A_list [0::nat]) False ''single_voice'',
      [Play_note 0 0 note_stop, Play_note 0 1 note_stop])"
proof -
  let ?self = "port_init (A_list [0::nat]) False ''single_voice''"
  have ok: "port_ok ?self" by (simp add: port_ok_def port_init_def)
  have lg: "logic ?self = ''single_voice''" by (simp add: port_init_def)
  have cs: "controllers ?self = [0]" by (simp add: port_init_def)
  show ?thesis
    using ok lg cs single_voice_stop_reads_absent_channel[OF ok lg]
    by (simp add: command_def upt_conv_Cons eval_nat_numeral)
qed

end
